theory Spec2Isabelle
  imports Complex_Main
begin

section \<open>Numbers\<close>

text \<open>
  Python numbers are modelled exactly: an \<open>int\<close> is a HOL \<open>int\<close>, and every value the
  source computes with \<open>/\<close>, with a float literal or by mixing the two is a HOL \<open>real\<close>.
  Arithmetic on reals is exact here; the rounding of binary64 is not modelled.
\<close>

definition py_int :: "real \<Rightarrow> int" where
  \<comment> \<open>Python's \<open>int(x)\<close> on a number: truncation towards zero.\<close>
  "py_int x = (if x < 0 then \<lceil>x\<rceil> else \<lfloor>x\<rfloor>)"

definition py_mod :: "real \<Rightarrow> real \<Rightarrow> real" where
  \<comment> \<open>Python's \<open>x % y\<close> for a positive divisor \<open>y\<close> (the source only divides by the
      constants 360 and 1.0): the result has the sign of the divisor.\<close>
  "py_mod x y = x - y * of_int \<lfloor>x / y\<rfloor>"

datatype py_error = ValueError | ZeroDivisionError | NameNotFound

type_synonym RGB = "int \<times> int \<times> int"
type_synonym HSL = "int \<times> int \<times> int"
type_synonym triple = "real \<times> real \<times> real"

section \<open>The standard library's \<open>colorsys\<close>\<close>

text \<open>
  \<open>rgb_to_hsl\<close> and \<open>hsl_to_rgb\<close> call \<open>colorsys.rgb_to_hls\<close> and
  \<open>colorsys.hls_to_rgb\<close> of CPython's standard library. They are transcribed here from
  \<open>Lib/colorsys.py\<close>, with the constants \<open>ONE_THIRD\<close>, \<open>ONE_SIXTH\<close> and
  \<open>TWO_THIRD\<close> as the exact fractions. A division by zero raises in Python and is the
  value \<open>Inl ZeroDivisionError\<close> here.
\<close>

definition rgb_to_hls :: "real \<Rightarrow> real \<Rightarrow> real \<Rightarrow> py_error + triple" where
  "rgb_to_hls r g b =
    (let maxc = max r (max g b);
         minc = min r (min g b);
         sumc = maxc + minc;
         rangec = maxc - minc;
         l = sumc / 2
     in if minc = maxc then Inr (0, l, 0)
        else if (if l \<le> 1 / 2 then sumc else 2 - maxc - minc) = 0 then Inl ZeroDivisionError
        else
          let s = (if l \<le> 1 / 2 then rangec / sumc else rangec / (2 - maxc - minc));
              rc = (maxc - r) / rangec;
              gc = (maxc - g) / rangec;
              bc = (maxc - b) / rangec;
              h = (if r = maxc then bc - gc
                   else if g = maxc then 2 + rc - bc
                   else 4 + gc - rc)
          in Inr (py_mod (h / 6) 1, l, s))"

definition v_hue :: "real \<Rightarrow> real \<Rightarrow> real \<Rightarrow> real" where
  \<comment> \<open>\<open>colorsys._v\<close>\<close>
  "v_hue m1 m2 hue0 =
    (let hue = py_mod hue0 1
     in if hue < 1 / 6 then m1 + (m2 - m1) * hue * 6
        else if hue < 1 / 2 then m2
        else if hue < 2 / 3 then m1 + (m2 - m1) * (2 / 3 - hue) * 6
        else m1)"

definition hls_to_rgb :: "real \<Rightarrow> real \<Rightarrow> real \<Rightarrow> triple" where
  "hls_to_rgb h l s =
    (if s = 0 then (l, l, l)
     else
       let m2 = (if l \<le> 1 / 2 then l * (1 + s) else l + s - l * s);
           m1 = 2 * l - m2
       in (v_hue m1 m2 (h + 1 / 3), v_hue m1 m2 h, v_hue m1 m2 (h - 1 / 3)))"

section \<open>RGB and HSL\<close>

definition rgb_to_hsl :: "int \<Rightarrow> int \<Rightarrow> int \<Rightarrow> py_error + HSL" where
  "rgb_to_hsl r g b =
    (case rgb_to_hls (of_int r / 255) (of_int g / 255) (of_int b / 255) of
       Inl e \<Rightarrow> Inl e
     | Inr (h, l, s) \<Rightarrow>
         Inr (py_int (h * 360 + 1 / 2), py_int (s * 100 + 1 / 2), py_int (l * 100 + 1 / 2)))"

definition hsl_to_rgb :: "real \<Rightarrow> real \<Rightarrow> real \<Rightarrow> RGB" where
  "hsl_to_rgb h s l =
    (case hls_to_rgb (h / 360) (l / 100) (s / 100) of
       (r, g, b) \<Rightarrow>
         (py_int (r * 255 + 1 / 2), py_int (g * 255 + 1 / 2), py_int (b * 255 + 1 / 2)))"

text \<open>
  Three functions used to analyse the conversions; they are not part of the source.
  \<open>trapezoid\<close> is the periodic profile that \<open>v_hue\<close> interpolates with, \<open>tent\<close> is the
  factor \<open>min(l, 1 - l)\<close> behind the two branches of \<open>hls_to_rgb\<close>, and
  \<open>channel h l s a\<close> is the closed form of one output channel of \<open>hls_to_rgb h l s\<close>,
  at hue offset \<open>a\<close> (proved below as \<open>hls_to_rgb_channel\<close>).
\<close>

definition tent :: "real \<Rightarrow> real" where
  "tent l = min l (1 - l)"

definition trapezoid :: "real \<Rightarrow> real" where
  "trapezoid x =
    (let u = py_mod x 1
     in if u < 1 / 6 then 6 * u
        else if u < 1 / 2 then 1
        else if u < 2 / 3 then 6 * (2 / 3 - u)
        else 0)"

definition channel :: "real \<Rightarrow> real \<Rightarrow> real \<Rightarrow> real \<Rightarrow> real" where
  "channel h l s a = l + s * tent l * (2 * trapezoid (h + a) - 1)"

section \<open>The hex codec\<close>

text \<open>
  A Python \<open>str\<close> is modelled as a \<open>string\<close> whose characters are the code points below
  256. \<open>format_02x\<close> is the format specification \<open>02x\<close> applied to an \<open>int\<close>: lowercase
  hexadecimal, a minus sign for a negative number, zero-padded after the sign to a total
  width of two.
\<close>

definition hex_digit :: "nat \<Rightarrow> char" where
  "hex_digit n = ''0123456789abcdef'' ! (n mod 16)"

fun hex_of_nat :: "nat \<Rightarrow> string" where
  "hex_of_nat n = (if n < 16 then [hex_digit n] else hex_of_nat (n div 16) @ [hex_digit (n mod 16)])"

definition format_02x :: "int \<Rightarrow> string" where
  "format_02x r =
    (let body = hex_of_nat (nat \<bar>r\<bar>)
     in if r < 0 then CHR ''-'' # body
        else replicate (2 - length body) CHR ''0'' @ body)"

definition rgb_to_hex :: "int \<Rightarrow> int \<Rightarrow> int \<Rightarrow> string" where
  "rgb_to_hex r g b = CHR ''#'' # format_02x r @ format_02x g @ format_02x b"

text \<open>
  \<open>int_base16\<close> is the builtin \<open>int(s, 16)\<close> on a \<open>str\<close>, after CPython's
  \<open>PyLong_FromString\<close>: surrounding whitespace is skipped, then come an optional sign, an
  optional \<open>0x\<close> or \<open>0X\<close> prefix (which one underscore may follow) and at least one hex
  digit, with single underscores allowed between digits. Anything else raises \<open>ValueError\<close>.
\<close>

definition is_space :: "char \<Rightarrow> bool" where
  "is_space c = (of_char c \<in> {9, 10, 11, 12, 13, 32, 133, 160 :: nat})"

definition hex_value :: "char \<Rightarrow> nat option" where
  "hex_value c =
    (let n = of_char c :: nat
     in if 48 \<le> n \<and> n \<le> 57 then Some (n - 48)
        else if 97 \<le> n \<and> n \<le> 102 then Some (n - 87)
        else if 65 \<le> n \<and> n \<le> 70 then Some (n - 55)
        else None)"

definition is_hex :: "char \<Rightarrow> bool" where
  "is_hex c = (hex_value c \<noteq> None)"

fun double_underscore :: "string \<Rightarrow> bool" where
  "double_underscore (a # b # cs) =
    ((a = CHR ''_'' \<and> b = CHR ''_'') \<or> double_underscore (b # cs))"
| "double_underscore _ = False"

definition strip_sign :: "string \<Rightarrow> bool \<times> string" where
  "strip_sign s =
    (case s of
       [] \<Rightarrow> (False, [])
     | c # t \<Rightarrow> if c = CHR ''+'' then (False, t)
                else if c = CHR ''-'' then (True, t)
                else (False, s))"

fun strip_prefix16 :: "string \<Rightarrow> string" where
  "strip_prefix16 (a # b # t) =
    (if a = CHR ''0'' \<and> (b = CHR ''x'' \<or> b = CHR ''X'')
     then (case t of [] \<Rightarrow> [] | c # t' \<Rightarrow> if c = CHR ''_'' then t' else t)
     else a # b # t)"
| "strip_prefix16 s = s"

definition int_base16 :: "string \<Rightarrow> py_error + int" where
  "int_base16 s =
    (let (neg, s2) = strip_sign (dropWhile is_space s);
         s3 = strip_prefix16 s2;
         body = takeWhile (\<lambda>c. is_hex c \<or> c = CHR ''_'') s3;
         rest = dropWhile (\<lambda>c. is_hex c \<or> c = CHR ''_'') s3;
         digits = filter is_hex body
     in if (s3 \<noteq> [] \<and> hd s3 = CHR ''_'')
           \<or> double_underscore body
           \<or> (body \<noteq> [] \<and> last body = CHR ''_'')
           \<or> body = []
           \<or> dropWhile is_space rest \<noteq> []
        then Inl ValueError
        else
          let n = foldl (\<lambda>a c. 16 * a + int (the (hex_value c))) 0 digits
          in Inr (if neg then - n else n))"

definition lstrip :: "char \<Rightarrow> string \<Rightarrow> string" where
  \<comment> \<open>\<open>s.lstrip(c)\<close> for a one-character argument: every leading \<open>c\<close> is removed\<close>
  "lstrip c s = dropWhile (\<lambda>x. x = c) s"

definition slice :: "string \<Rightarrow> nat \<Rightarrow> nat \<Rightarrow> string" where
  \<comment> \<open>\<open>s[i:j]\<close> for \<open>0 \<le> i \<le> j\<close>: clipped to the string, never an error\<close>
  "slice s i j = take (j - i) (drop i s)"

definition hex_to_rgb :: "string \<Rightarrow> py_error + RGB" where
  "hex_to_rgb color0 =
    (let color = lstrip CHR ''#'' color0
     in case int_base16 (slice color 0 2) of
          Inl e \<Rightarrow> Inl e
        | Inr r \<Rightarrow>
           (case int_base16 (slice color 2 4) of
              Inl e \<Rightarrow> Inl e
            | Inr g \<Rightarrow>
               (case int_base16 (slice color 4 6) of
                  Inl e \<Rightarrow> Inl e
                | Inr b \<Rightarrow> Inr (r, g, b))))"

text \<open>A lowercase hex digit, to state the format of \<open>rgb_to_hex\<close>.\<close>

definition lower_hex :: "char \<Rightarrow> bool" where
  "lower_hex c = (c \<in> set ''0123456789abcdef'')"

section \<open>RGB and RYB: interpolation over the unit cube\<close>

text \<open>
  A conversion table is a Python list of exactly eight triples, unpacked by \<open>convert\<close> into
  \<open>f000, ..., f111\<close>; it is an 8-tuple here.
\<close>

type_synonym table =
  "triple \<times> triple \<times> triple \<times> triple \<times> triple \<times> triple \<times> triple \<times> triple"

definition GOSSET_RYB_TO_RGB :: table where
  "GOSSET_RYB_TO_RGB =
    ((1, 1, 1),
     (1, 0, 0),
     (1, 1, 0),
     (163 / 1000, 373 / 1000, 6 / 10),
     (5 / 10, 0, 5 / 10),
     (0, 66 / 100, 2 / 10),
     (1, 5 / 10, 0),
     (2 / 10, 94 / 1000, 0))"

definition IRISSON_RYB_TO_RGB :: table where
  "IRISSON_RYB_TO_RGB =
    ((1, 1, 1),
     (163 / 1000, 373 / 1000, 6 / 10),
     (1, 1, 0),
     (0, 66 / 100, 2 / 10),
     (1, 0, 0),
     (5 / 10, 5 / 10, 9 / 10),
     (1, 5 / 10, 0),
     (0, 0, 0))"

definition RGB_TO_RYB :: table where
  "RGB_TO_RYB =
    ((1, 1, 1),
     (0, 0, 1),
     (0, 1, 483 / 1000),
     (0, 53 / 1000, 21 / 100),
     (1, 0, 0),
     (309 / 1000, 0, 469 / 1000),
     (0, 1, 0),
     (0, 0, 0))"

fun weights :: "real \<Rightarrow> real \<Rightarrow> real \<Rightarrow> real list" where
  \<comment> \<open>The eight coefficients \<open>c000, ..., c111\<close> that \<open>convert\<close> computes, in that order.\<close>
  "weights r y b =
    (let ri = 1 - r; yi = 1 - y; bi = 1 - b
     in [ri * yi * bi, ri * yi * b, ri * y * bi, ri * y * b,
         r * yi * bi, r * yi * b, r * y * bi, r * y * b])"

fun convert :: "real \<Rightarrow> real \<Rightarrow> real \<Rightarrow> table \<Rightarrow> triple" where
  "convert r y b (f000, f001, f010, f011, f100, f101, f110, f111) =
    (let ri = 1 - r; yi = 1 - y; bi = 1 - b;
         c000 = ri * yi * bi; c001 = ri * yi * b; c010 = ri * y * bi; c011 = ri * y * b;
         c100 = r * yi * bi; c101 = r * yi * b; c110 = r * y * bi; c111 = r * y * b
     in (c000 * fst f000 + c001 * fst f001 + c010 * fst f010 + c011 * fst f011
           + c100 * fst f100 + c101 * fst f101 + c110 * fst f110 + c111 * fst f111,
         c000 * fst (snd f000) + c001 * fst (snd f001) + c010 * fst (snd f010)
           + c011 * fst (snd f011) + c100 * fst (snd f100) + c101 * fst (snd f101)
           + c110 * fst (snd f110) + c111 * fst (snd f111),
         c000 * snd (snd f000) + c001 * snd (snd f001) + c010 * snd (snd f010)
           + c011 * snd (snd f011) + c100 * snd (snd f100) + c101 * snd (snd f101)
           + c110 * snd (snd f110) + c111 * snd (snd f111)))"

fun ryb_to_rgb :: "RGB \<Rightarrow> RGB" where
  "ryb_to_rgb (r0, y0, b0) =
    (let r = of_int r0 / 255; y = of_int y0 / 255; b = of_int b0 / 255;
         rgb = convert r y b IRISSON_RYB_TO_RGB
     in (py_int (fst rgb * 255 + 1 / 2),
         py_int (fst (snd rgb) * 255 + 1 / 2),
         py_int (snd (snd rgb) * 255 + 1 / 2)))"

fun rgb_to_ryb :: "RGB \<Rightarrow> RGB" where
  "rgb_to_ryb (r0, g0, b0) =
    (let r = of_int r0 / 255; g = of_int g0 / 255; b = of_int b0 / 255;
         ryb = convert r g b RGB_TO_RYB
     in (py_int (fst ryb * 255 + 1 / 2),
         py_int (fst (snd ryb) * 255 + 1 / 2),
         py_int (snd (snd ryb) * 255 + 1 / 2)))"

text \<open>
  The corners of a table as a list, in the order of the coefficients, and the predicates
  "every component lies in the unit interval" used to state the range of \<open>convert\<close>.
\<close>

definition table_list :: "table \<Rightarrow> triple list" where
  "table_list t = (case t of (f000, f001, f010, f011, f100, f101, f110, f111) \<Rightarrow>
     [f000, f001, f010, f011, f100, f101, f110, f111])"

definition unit_triple :: "triple \<Rightarrow> bool" where
  "unit_triple t = (case t of (a, b, c) \<Rightarrow> 0 \<le> a \<and> a \<le> 1 \<and> 0 \<le> b \<and> b \<le> 1 \<and> 0 \<le> c \<and> c \<le> 1)"

definition unit_table :: "table \<Rightarrow> bool" where
  "unit_table t = list_all unit_triple (table_list t)"

section \<open>The Color class\<close>

text \<open>
  The fields \<open>c_hsl\<close> and \<open>c_ryb\<close> are the attributes \<open>_hsl\<close> and \<open>_ryb\<close>. The
  constructor stores what it is given; hue, saturation and lightness may be any numbers.
\<close>

record Color =
  c_hsl :: triple
  c_ryb :: bool

definition Color_init :: "real \<Rightarrow> real \<Rightarrow> real \<Rightarrow> bool \<Rightarrow> Color" where
  "Color_init h s l ryb = \<lparr>c_hsl = (h, s, l), c_ryb = ryb\<rparr>"

definition hsl :: "Color \<Rightarrow> triple" where
  "hsl c = c_hsl c"

definition hue :: "Color \<Rightarrow> real" where
  \<comment> \<open>\<open>self._hsl.h\<close>\<close>
  "hue c = fst (c_hsl c)"

definition saturation :: "Color \<Rightarrow> real" where
  \<comment> \<open>\<open>self._hsl.s\<close>\<close>
  "saturation c = fst (snd (c_hsl c))"

definition lightness :: "Color \<Rightarrow> real" where
  \<comment> \<open>\<open>self._hsl.l\<close>\<close>
  "lightness c = snd (snd (c_hsl c))"

definition rgb :: "Color \<Rightarrow> RGB" where
  "rgb c =
    (let rgb0 = hsl_to_rgb (hue c) (saturation c) (lightness c)
     in if c_ryb c then ryb_to_rgb rgb0 else rgb0)"

definition ryb :: "Color \<Rightarrow> RGB" where
  "ryb c =
    (let rgb0 = hsl_to_rgb (hue c) (saturation c) (lightness c)
     in if \<not> c_ryb c then rgb_to_ryb rgb0 else rgb0)"

definition hex :: "Color \<Rightarrow> string" where
  "hex c = (case rgb c of (r, g, b) \<Rightarrow> rgb_to_hex r g b)"

definition from_rgb :: "int \<Rightarrow> int \<Rightarrow> int \<Rightarrow> bool \<Rightarrow> py_error + Color" where
  "from_rgb r g b ryb0 =
    (case (if ryb0 then rgb_to_ryb (r, g, b) else (r, g, b)) of
       (r', g', b') \<Rightarrow>
         (case rgb_to_hsl r' g' b' of
            Inl e \<Rightarrow> Inl e
          | Inr (h, s, l) \<Rightarrow> Inr (Color_init (of_int h) (of_int s) (of_int l) ryb0)))"

definition from_hex :: "string \<Rightarrow> py_error + Color" where
  "from_hex color =
    (case hex_to_rgb color of
       Inl e \<Rightarrow> Inl e
     | Inr (r, g, b) \<Rightarrow> from_rgb r g b False)"

definition tColor_parse :: "(string \<rightharpoonup> RGB) \<Rightarrow> string \<Rightarrow> py_error + RGB" where
  \<comment> \<open>Modelled from the spec: \<open>Color.parse\<close> of the \<open>textual\<close> package and its table of
      colour names are not part of the sources. The spec has \<open>from_name\<close> look the name up
      in a fixed name-to-RGB table and fail with \<open>NameNotFound\<close> when there is no matching
      entry; the table is the parameter \<open>names\<close>.\<close>
  "tColor_parse names color =
    (case names color of None \<Rightarrow> Inl NameNotFound | Some c \<Rightarrow> Inr c)"

definition from_name :: "(string \<rightharpoonup> RGB) \<Rightarrow> string \<Rightarrow> py_error + Color" where
  "from_name names color =
    (case tColor_parse names color of
       Inl e \<Rightarrow> Inl e
     | Inr (r, g, b) \<Rightarrow> from_rgb r g b False)"

definition rotate :: "Color \<Rightarrow> real \<Rightarrow> Color" where
  "rotate c theta =
    (let h = py_mod (hue c + theta) 360
     in Color_init h (saturation c) (lightness c) (c_ryb c))"

definition lighten :: "Color \<Rightarrow> real \<Rightarrow> real \<Rightarrow> Color" where
  \<comment> \<open>\<open>lighten(add, mult)\<close>; the defaults are \<open>add = 0\<close> and \<open>mult = 1\<close>\<close>
  "lighten c add mult =
    (case hsl c of
       (h, s, l) \<Rightarrow>
         let l1 = mult * (l + add);
             l2 = min (max l1 0) 100
         in Color_init h s l2 (c_ryb c))"

definition saturate :: "Color \<Rightarrow> real \<Rightarrow> real \<Rightarrow> Color" where
  \<comment> \<open>\<open>saturate(add, mult)\<close>; the defaults are \<open>add = 0\<close> and \<open>mult = 1\<close>\<close>
  "saturate c add mult =
    (case hsl c of
       (h, s, l) \<Rightarrow>
         let s1 = mult * (s + add);
             s2 = min (max s1 0) 100
         in Color_init h s2 l (c_ryb c))"

text \<open>The harmonies return tuples of colours; they are lists here, in the tuple's order.\<close>

definition complement :: "Color \<Rightarrow> Color list" where
  "complement c = [rotate c 180]"

definition triad :: "Color \<Rightarrow> Color list" where
  "triad c = [rotate c 120, rotate c (- 120)]"

definition analagous :: "Color \<Rightarrow> Color list" where
  "analagous c = [rotate c 30, rotate c (- 30)]"

definition compound :: "Color \<Rightarrow> Color list" where
  "compound c = [rotate c 150, rotate c (- 150)]"

definition square :: "Color \<Rightarrow> Color list" where
  "square c = [rotate c 90, rotate c 180, rotate c 270]"

definition rectangle :: "Color \<Rightarrow> Color list" where
  "rectangle c = [rotate c 150, rotate c 180, rotate c 330]"

definition shades :: "Color \<Rightarrow> Color list" where
  "shades c =
    [lighten c 0 (1 / 2),
     lighten c (- 20) 1,
     lighten c 20 1,
     lighten c 0 (3 / 2)]"


section \<open>Properties of the hex codec\<close>

lemma is_hex_not_special:
  assumes "is_hex c"
  shows "\<not> is_space c" "c \<noteq> CHR ''+''" "c \<noteq> CHR ''-''" "c \<noteq> CHR ''_''"
    "c \<noteq> CHR ''x''" "c \<noteq> CHR ''X''" "c \<noteq> CHR ''#''"
  using assms
  by (auto simp: is_hex_def hex_value_def is_space_def Let_def split: if_splits)

lemma hex_value_bound: "hex_value c = Some n \<Longrightarrow> n < 16"
  by (auto simp: hex_value_def Let_def split: if_splits)

lemma int_base16_two_hex:
  assumes "is_hex a" "is_hex b"
  shows "int_base16 [a, b] = Inr (16 * int (the (hex_value a)) + int (the (hex_value b)))"
  using assms is_hex_not_special [OF assms(1)] is_hex_not_special [OF assms(2)]
  by (simp add: int_base16_def strip_sign_def)

lemma int_base16_empty: "int_base16 [] = Inl ValueError"
  by (simp add: int_base16_def strip_sign_def)

lemma int_base16_error: "int_base16 t = Inl e \<Longrightarrow> e = ValueError"
  by (auto simp: int_base16_def Let_def split: prod.splits if_splits)

lemma hex_digit_lower: "lower_hex (hex_digit n)"
proof -
  have "n mod 16 < length ''0123456789abcdef''" by simp
  then have "''0123456789abcdef'' ! (n mod 16) \<in> set ''0123456789abcdef''"
    by (rule nth_mem)
  then show ?thesis by (simp only: lower_hex_def hex_digit_def)
qed

lemma hex_value_hex_digit_upto:
  "list_all (\<lambda>n. hex_value (hex_digit n) = Some n) [0..<16]"
  by code_simp

lemma hex_value_hex_digit:
  assumes "n < 16"
  shows "hex_value (hex_digit n) = Some n"
proof -
  have "n \<in> set [0..<16]" using assms by simp
  then show ?thesis using hex_value_hex_digit_upto unfolding list_all_iff by blast
qed

lemma is_hex_hex_digit: "n < 16 \<Longrightarrow> is_hex (hex_digit n)"
  by (simp add: is_hex_def hex_value_hex_digit)

lemma hex_of_nat_byte:
  assumes "n < 256"
  shows "replicate (2 - length (hex_of_nat n)) CHR ''0'' @ hex_of_nat n
         = [hex_digit (n div 16), hex_digit (n mod 16)]"
proof (cases "n < 16")
  case True
  then have "hex_of_nat n = [hex_digit n]" by (subst hex_of_nat.simps) simp
  moreover have "hex_digit (n div 16) = CHR ''0''" using True by (simp add: hex_digit_def)
  ultimately show ?thesis using True by simp
next
  case False
  have d: "n div 16 < 16" using assms by simp
  have "hex_of_nat n = hex_of_nat (n div 16) @ [hex_digit (n mod 16)]"
    using False by (subst hex_of_nat.simps) simp
  also have "hex_of_nat (n div 16) = [hex_digit (n div 16)]"
    using d by (subst hex_of_nat.simps) simp
  finally show ?thesis by simp
qed

lemma format_02x_byte:
  assumes "0 \<le> r" "r \<le> 255"
  shows "format_02x r = [hex_digit (nat r div 16), hex_digit (nat r mod 16)]"
proof -
  have "nat \<bar>r\<bar> = nat r" using assms by simp
  moreover have "nat r < 256" using assms by simp
  ultimately show ?thesis using assms hex_of_nat_byte [of "nat r"]
    by (simp add: format_02x_def Let_def)
qed

lemma int_base16_format_02x:
  assumes "0 \<le> r" "r \<le> 255"
  shows "int_base16 (format_02x r) = Inr r"
proof -
  have hi: "nat r div 16 < 16" and lo: "nat r mod 16 < 16" using assms by simp_all
  have "int_base16 (format_02x r)
        = Inr (16 * int (nat r div 16) + int (nat r mod 16))"
    unfolding format_02x_byte [OF assms]
    using int_base16_two_hex [OF is_hex_hex_digit [OF hi] is_hex_hex_digit [OF lo]]
    by (simp add: hex_value_hex_digit [OF hi] hex_value_hex_digit [OF lo])
  also have "16 * int (nat r div 16) + int (nat r mod 16) = r"
    using assms by (simp add: zdiv_int zmod_int)
  finally show ?thesis .
qed

lemma hex_to_rgb_six:
  "hex_to_rgb (replicate n CHR ''#'' @ [d1, d2, d3, d4, d5, d6] @ rest) =
    (case int_base16 [d1, d2] of Inl e \<Rightarrow> Inl e | Inr r \<Rightarrow>
      (case int_base16 [d3, d4] of Inl e \<Rightarrow> Inl e | Inr g \<Rightarrow>
        (case int_base16 [d5, d6] of Inl e \<Rightarrow> Inl e | Inr b \<Rightarrow> Inr (r, g, b))))"
  if "d1 \<noteq> CHR ''#''"
proof -
  have "lstrip CHR ''#'' (replicate n CHR ''#'' @ [d1, d2, d3, d4, d5, d6] @ rest)
        = [d1, d2, d3, d4, d5, d6] @ rest"
    unfolding lstrip_def using that by (induction n) simp_all
  then show ?thesis by (simp add: hex_to_rgb_def slice_def cong: sum.case_cong)
qed

text \<open>
  C5: for every RGB triple with each component in [0,255], \<open>hex_to_rgb\<close> of
  \<open>rgb_to_hex\<close> is the triple itself, and \<open>rgb_to_hex\<close> is a \<open>#\<close> followed by exactly
  two lowercase hex digits per channel, zero-padded.
\<close>

theorem hex_round_trip:
  assumes "0 \<le> r" "r \<le> 255" "0 \<le> g" "g \<le> 255" "0 \<le> b" "b \<le> 255"
  shows "hex_to_rgb (rgb_to_hex r g b) = Inr (r, g, b)
    \<and> rgb_to_hex r g b =
        [CHR ''#'', hex_digit (nat r div 16), hex_digit (nat r mod 16),
         hex_digit (nat g div 16), hex_digit (nat g mod 16),
         hex_digit (nat b div 16), hex_digit (nat b mod 16)]
    \<and> list_all lower_hex (tl (rgb_to_hex r g b))"
proof -
  note f = format_02x_byte [OF assms(1,2)] format_02x_byte [OF assms(3,4)]
    format_02x_byte [OF assms(5,6)]
  have shape: "rgb_to_hex r g b =
        [CHR ''#'', hex_digit (nat r div 16), hex_digit (nat r mod 16),
         hex_digit (nat g div 16), hex_digit (nat g mod 16),
         hex_digit (nat b div 16), hex_digit (nat b mod 16)]"
    by (simp add: rgb_to_hex_def f)
  have "nat r div 16 < 16" using assms by simp
  then have "hex_digit (nat r div 16) \<noteq> CHR ''#''"
    using is_hex_not_special(7) is_hex_hex_digit by blast
  then have "hex_to_rgb (rgb_to_hex r g b) =
    (case int_base16 (format_02x r) of Inl e \<Rightarrow> Inl e | Inr r' \<Rightarrow>
      (case int_base16 (format_02x g) of Inl e \<Rightarrow> Inl e | Inr g' \<Rightarrow>
        (case int_base16 (format_02x b) of Inl e \<Rightarrow> Inl e | Inr b' \<Rightarrow> Inr (r', g', b'))))"
    using hex_to_rgb_six [of "hex_digit (nat r div 16)" 1 "hex_digit (nat r mod 16)"
        "hex_digit (nat g div 16)" "hex_digit (nat g mod 16)"
        "hex_digit (nat b div 16)" "hex_digit (nat b mod 16)" "[]"]
    by (simp add: shape f cong: sum.case_cong)
  then have "hex_to_rgb (rgb_to_hex r g b) = Inr (r, g, b)"
    using assms by (simp add: int_base16_format_02x)
  then show ?thesis using shape by (simp add: hex_digit_lower)
qed

theorem hex_round_trip_witness:
  "hex_to_rgb (rgb_to_hex 255 0 10) = Inr (255, 0, 10) \<and> rgb_to_hex 255 0 10 = ''#ff000a''"
proof -
  have all: "hex_to_rgb (rgb_to_hex 255 0 10) = Inr (255, 0, 10)
    \<and> rgb_to_hex 255 0 10 =
        [CHR ''#'', hex_digit (nat 255 div 16), hex_digit (nat 255 mod 16),
         hex_digit (nat 0 div 16), hex_digit (nat 0 mod 16),
         hex_digit (nat 10 div 16), hex_digit (nat 10 mod 16)]
    \<and> list_all lower_hex (tl (rgb_to_hex 255 0 10))"
    by (rule hex_round_trip) simp_all
  then have a: "hex_to_rgb (rgb_to_hex 255 0 10) = Inr (255, 0, 10)"
    by (rule conjunct1)
  have b: "rgb_to_hex 255 0 10 =
        [CHR ''#'', hex_digit (nat 255 div 16), hex_digit (nat 255 mod 16),
         hex_digit (nat 0 div 16), hex_digit (nat 0 mod 16),
         hex_digit (nat 10 div 16), hex_digit (nat 10 mod 16)]"
    using all by blast
  have "rgb_to_hex 255 0 10 = ''#ff000a''"
    unfolding b by (simp add: hex_digit_def)
  with a show ?thesis by simp
qed

text \<open>
  C3: \<open>hex_to_rgb\<close> should fail whenever what is left after the leading \<open>#\<close> is
  not exactly six hex digits. It does not: it reads three two-character slices with
  \<open>int(., 16)\<close>, which accepts a sign or a blank, and it ignores everything after the
  sixth character. The values below are what it returns on four such strings; two of them
  lie outside the range 0-255 that its docstring promises.
\<close>

theorem hex_to_rgb_accepts_malformed:
  "hex_to_rgb ''+1-2 3'' = Inr (1, - 2, 3)
   \<and> hex_to_rgb ''-f-f-f'' = Inr (- 15, - 15, - 15)
   \<and> hex_to_rgb ''#ff00001'' = Inr (255, 0, 0)
   \<and> hex_to_rgb ''12345'' = Inr (18, 52, 5)"
  by (simp add: hex_to_rgb_def lstrip_def slice_def int_base16_def strip_sign_def
      is_space_def is_hex_def hex_value_def)

section \<open>Properties of the RYB conversions\<close>

lemma py_int_nonneg: "0 \<le> x \<Longrightarrow> py_int x = \<lfloor>x\<rfloor>"
  by (simp add: py_int_def)

lemma py_int_round_unit:
  assumes "0 \<le> x" "x \<le> 1"
  shows "0 \<le> py_int (x * 255 + 1 / 2) \<and> py_int (x * 255 + 1 / 2) \<le> 255"
proof -
  have lo: "0 \<le> x * 255 + 1 / 2" using assms by simp
  have hi: "x * 255 + 1 / 2 < 256" using assms by simp
  have "\<lfloor>x * 255 + 1 / 2\<rfloor> < 256" using hi by (simp add: floor_less_iff)
  moreover have "0 \<le> \<lfloor>x * 255 + 1 / 2\<rfloor>" using lo by simp
  ultimately show ?thesis using lo by (simp add: py_int_nonneg)
qed

text \<open>
  C2: \<open>ryb_to_rgb\<close> maps the triple (0,0,0) to exactly (255,255,255) and the triple
  (255,255,255) to exactly (0,0,0); the table it interpolates is the Irisson table, whose
  last corner (111) is pure black.
\<close>

theorem ryb_to_rgb_anchors:
  "ryb_to_rgb (0, 0, 0) = (255, 255, 255)
   \<and> ryb_to_rgb (255, 255, 255) = (0, 0, 0)
   \<and> last (table_list IRISSON_RYB_TO_RGB) = (0, 0, 0)"
  by (simp add: IRISSON_RYB_TO_RGB_def py_int_def table_list_def)

lemma unit_table_IRISSON: "unit_table IRISSON_RYB_TO_RGB"
  by (simp add: unit_table_def table_list_def IRISSON_RYB_TO_RGB_def unit_triple_def)

lemma unit_table_RGB_TO_RYB: "unit_table RGB_TO_RYB"
  by (simp add: unit_table_def table_list_def RGB_TO_RYB_def unit_triple_def)

lemma weights_nonneg:
  assumes "0 \<le> r" "r \<le> 1" "0 \<le> y" "y \<le> 1" "0 \<le> b" "b \<le> 1"
  shows "list_all (\<lambda>w. 0 \<le> w) (weights r y b)"
  using assms by (simp add: Let_def)

lemma weights_sum: "sum_list (weights r y b) = 1"
  by (simp add: algebra_simps)

lemma convex8:
  fixes c0 :: real
  assumes c: "0 \<le> c0" "0 \<le> c1" "0 \<le> c2" "0 \<le> c3" "0 \<le> c4" "0 \<le> c5" "0 \<le> c6" "0 \<le> c7"
    and s: "c0 + c1 + c2 + c3 + c4 + c5 + c6 + c7 = 1"
    and lo: "0 \<le> f0" "0 \<le> f1" "0 \<le> f2" "0 \<le> f3" "0 \<le> f4" "0 \<le> f5" "0 \<le> f6" "0 \<le> f7"
    and hi: "f0 \<le> 1" "f1 \<le> 1" "f2 \<le> 1" "f3 \<le> 1" "f4 \<le> 1" "f5 \<le> 1" "f6 \<le> 1" "f7 \<le> 1"
  shows "0 \<le> c0 * f0 + c1 * f1 + c2 * f2 + c3 * f3 + c4 * f4 + c5 * f5 + c6 * f6 + c7 * f7"
    and "c0 * f0 + c1 * f1 + c2 * f2 + c3 * f3 + c4 * f4 + c5 * f5 + c6 * f6 + c7 * f7 \<le> 1"
proof -
  have p: "0 \<le> c0 * f0" "0 \<le> c1 * f1" "0 \<le> c2 * f2" "0 \<le> c3 * f3"
    "0 \<le> c4 * f4" "0 \<le> c5 * f5" "0 \<le> c6 * f6" "0 \<le> c7 * f7"
    using c lo by simp_all
  show "0 \<le> c0 * f0 + c1 * f1 + c2 * f2 + c3 * f3 + c4 * f4 + c5 * f5 + c6 * f6 + c7 * f7"
    using p by linarith
  have q: "c0 * f0 \<le> c0" "c1 * f1 \<le> c1" "c2 * f2 \<le> c2" "c3 * f3 \<le> c3"
    "c4 * f4 \<le> c4" "c5 * f5 \<le> c5" "c6 * f6 \<le> c6" "c7 * f7 \<le> c7"
    using c hi by (simp_all add: mult_left_le)
  show "c0 * f0 + c1 * f1 + c2 * f2 + c3 * f3 + c4 * f4 + c5 * f5 + c6 * f6 + c7 * f7 \<le> 1"
    using q s by linarith
qed

lemma convert_weights:
  "convert r y b t =
    (sum_list (map2 (\<lambda>w f. w * fst f) (weights r y b) (table_list t)),
     sum_list (map2 (\<lambda>w f. w * fst (snd f)) (weights r y b) (table_list t)),
     sum_list (map2 (\<lambda>w f. w * snd (snd f)) (weights r y b) (table_list t)))"
  by (auto simp: table_list_def Let_def split: prod.splits)

lemma convert_unit:
  assumes r: "0 \<le> r" "r \<le> 1" and y: "0 \<le> y" "y \<le> 1" and b: "0 \<le> b" "b \<le> 1"
    and t: "unit_table t"
  shows "unit_triple (convert r y b t)"
proof -
  obtain f000 f001 f010 f011 f100 f101 f110 f111
    where teq: "t = (f000, f001, f010, f011, f100, f101, f110, f111)"
    by (cases t) auto
  have ri: "0 \<le> 1 - r" and yi: "0 \<le> 1 - y" and bi: "0 \<le> 1 - b"
    using r y b by simp_all
  have c: "0 \<le> (1 - r) * (1 - y) * (1 - b)" "0 \<le> (1 - r) * (1 - y) * b"
    "0 \<le> (1 - r) * y * (1 - b)" "0 \<le> (1 - r) * y * b"
    "0 \<le> r * (1 - y) * (1 - b)" "0 \<le> r * (1 - y) * b"
    "0 \<le> r * y * (1 - b)" "0 \<le> r * y * b"
    using r y b ri yi bi by simp_all
  have s: "(1 - r) * (1 - y) * (1 - b) + (1 - r) * (1 - y) * b + (1 - r) * y * (1 - b)
      + (1 - r) * y * b + r * (1 - y) * (1 - b) + r * (1 - y) * b + r * y * (1 - b)
      + r * y * b = 1"
    by (simp add: algebra_simps)
  have u: "unit_triple f000" "unit_triple f001" "unit_triple f010" "unit_triple f011"
    "unit_triple f100" "unit_triple f101" "unit_triple f110" "unit_triple f111"
    using t by (simp_all add: unit_table_def table_list_def teq)
  have u1: "0 \<le> fst f000" "0 \<le> fst f001" "0 \<le> fst f010" "0 \<le> fst f011"
      "0 \<le> fst f100" "0 \<le> fst f101" "0 \<le> fst f110" "0 \<le> fst f111"
      "fst f000 \<le> 1" "fst f001 \<le> 1" "fst f010 \<le> 1" "fst f011 \<le> 1"
      "fst f100 \<le> 1" "fst f101 \<le> 1" "fst f110 \<le> 1" "fst f111 \<le> 1"
    using u by (auto simp: unit_triple_def split: prod.splits)
  have u2: "0 \<le> fst (snd f000)" "0 \<le> fst (snd f001)" "0 \<le> fst (snd f010)"
      "0 \<le> fst (snd f011)" "0 \<le> fst (snd f100)" "0 \<le> fst (snd f101)"
      "0 \<le> fst (snd f110)" "0 \<le> fst (snd f111)"
      "fst (snd f000) \<le> 1" "fst (snd f001) \<le> 1" "fst (snd f010) \<le> 1"
      "fst (snd f011) \<le> 1" "fst (snd f100) \<le> 1" "fst (snd f101) \<le> 1"
      "fst (snd f110) \<le> 1" "fst (snd f111) \<le> 1"
    using u by (auto simp: unit_triple_def split: prod.splits)
  have u3: "0 \<le> snd (snd f000)" "0 \<le> snd (snd f001)" "0 \<le> snd (snd f010)"
      "0 \<le> snd (snd f011)" "0 \<le> snd (snd f100)" "0 \<le> snd (snd f101)"
      "0 \<le> snd (snd f110)" "0 \<le> snd (snd f111)"
      "snd (snd f000) \<le> 1" "snd (snd f001) \<le> 1" "snd (snd f010) \<le> 1"
      "snd (snd f011) \<le> 1" "snd (snd f100) \<le> 1" "snd (snd f101) \<le> 1"
      "snd (snd f110) \<le> 1" "snd (snd f111) \<le> 1"
    using u by (auto simp: unit_triple_def split: prod.splits)
  show ?thesis
    unfolding teq convert.simps Let_def unit_triple_def prod.case
    using convex8 [OF c s u1] convex8 [OF c s u2] convex8 [OF c s u3]
    by blast
qed

lemma channel_unit:
  assumes "0 \<le> (r::int)" "r \<le> 255"
  shows "0 \<le> (of_int r / 255 :: real)" "(of_int r / 255 :: real) \<le> 1"
  using assms by simp_all

text \<open>
  C10: for every input triple with each component in [0,255], \<open>ryb_to_rgb\<close> and
  \<open>rgb_to_ryb\<close> both return a triple with every component in [0,255]. The reason is
  part of the statement: on the normalised input the eight coefficients of \<open>convert\<close> are
  nonnegative and sum to 1, and every entry of both tables lies in [0,1], so every channel
  is a convex combination in [0,1] before it is scaled and rounded.
\<close>

theorem ryb_conversions_in_range:
  assumes r: "0 \<le> r" "r \<le> 255" and y: "0 \<le> y" "y \<le> 255" and b: "0 \<le> b" "b \<le> 255"
  shows "(case ryb_to_rgb (r, y, b) of (r', g', b') \<Rightarrow>
            0 \<le> r' \<and> r' \<le> 255 \<and> 0 \<le> g' \<and> g' \<le> 255 \<and> 0 \<le> b' \<and> b' \<le> 255)
       \<and> (case rgb_to_ryb (r, y, b) of (r', y', b') \<Rightarrow>
            0 \<le> r' \<and> r' \<le> 255 \<and> 0 \<le> y' \<and> y' \<le> 255 \<and> 0 \<le> b' \<and> b' \<le> 255)
       \<and> list_all (\<lambda>w. 0 \<le> w) (weights (of_int r / 255) (of_int y / 255) (of_int b / 255))
       \<and> sum_list (weights (of_int r / 255) (of_int y / 255) (of_int b / 255)) = 1
       \<and> unit_table IRISSON_RYB_TO_RGB \<and> unit_table RGB_TO_RYB"
proof -
  note n = channel_unit [OF r] channel_unit [OF y] channel_unit [OF b]
  have 1: "unit_triple (convert (of_int r / 255) (of_int y / 255) (of_int b / 255) IRISSON_RYB_TO_RGB)"
    by (rule convert_unit [OF n unit_table_IRISSON])
  have 2: "unit_triple (convert (of_int r / 255) (of_int y / 255) (of_int b / 255) RGB_TO_RYB)"
    by (rule convert_unit [OF n unit_table_RGB_TO_RYB])
  have A: "case ryb_to_rgb (r, y, b) of (r', g', b') \<Rightarrow>
            0 \<le> r' \<and> r' \<le> 255 \<and> 0 \<le> g' \<and> g' \<le> 255 \<and> 0 \<le> b' \<and> b' \<le> 255"
    using 1 by (auto simp: unit_triple_def Let_def split: prod.splits dest: py_int_round_unit)
  have B: "case rgb_to_ryb (r, y, b) of (r', g', b') \<Rightarrow>
            0 \<le> r' \<and> r' \<le> 255 \<and> 0 \<le> g' \<and> g' \<le> 255 \<and> 0 \<le> b' \<and> b' \<le> 255"
    using 2 by (auto simp: unit_triple_def Let_def split: prod.splits dest: py_int_round_unit)
  show ?thesis
    using A B weights_nonneg [OF n] weights_sum unit_table_IRISSON unit_table_RGB_TO_RYB
    by blast
qed

theorem ryb_conversions_in_range_witness:
  "ryb_to_rgb (255, 255, 0) = (255, 128, 0) \<and> rgb_to_ryb (255, 255, 0) = (0, 255, 0)
   \<and> list_all (\<lambda>w. 0 \<le> w) (weights (of_int 255 / 255) (of_int 255 / 255) (of_int 0 / 255))
   \<and> sum_list (weights (of_int 255 / 255) (of_int 255 / 255) (of_int 0 / 255)) = 1"
  using ryb_conversions_in_range [of 255 255 0]
  by (simp add: IRISSON_RYB_TO_RGB_def RGB_TO_RYB_def py_int_def)


section \<open>Properties of the Color class\<close>

lemma py_mod_range:
  assumes "0 < y"
  shows "0 \<le> py_mod x y" "py_mod x y < y"
proof -
  have "of_int \<lfloor>x / y\<rfloor> * y \<le> x" using assms by (rule floor_divide_lower)
  then show "0 \<le> py_mod x y" by (simp add: py_mod_def mult.commute)
  have "x < (of_int \<lfloor>x / y\<rfloor> + 1) * y" using assms by (rule floor_divide_upper)
  then show "py_mod x y < y" by (simp add: py_mod_def algebra_simps)
qed

lemma py_mod_shift:
  assumes "y \<noteq> 0"
  shows "py_mod (x - y * of_int k) y = py_mod x y"
proof -
  have "(x - y * of_int k) / y = x / y - of_int k"
    using assms by (simp add: diff_divide_distrib)
  then have fl: "\<lfloor>(x - y * of_int k) / y\<rfloor> = \<lfloor>x / y\<rfloor> - k" by simp
  show ?thesis unfolding py_mod_def fl by (simp add: algebra_simps)
qed

lemma hue_Color_init: "hue (Color_init h s l r) = h"
  and saturation_Color_init: "saturation (Color_init h s l r) = s"
  and lightness_Color_init: "lightness (Color_init h s l r) = l"
  and ryb_Color_init: "c_ryb (Color_init h s l r) = r"
  by (simp_all add: hue_def saturation_def lightness_def Color_init_def)

lemmas Color_init_simps =
  hue_Color_init saturation_Color_init lightness_Color_init ryb_Color_init

lemma hue_rotate: "hue (rotate c theta) = py_mod (hue c + theta) 360"
  by (simp add: rotate_def Let_def Color_init_simps)

text \<open>
  C6: for every colour and every angle \<open>theta\<close>, negative ones too, the hue of
  \<open>rotate(theta)\<close> lies in [0,360), and \<open>rotate(theta)\<close> followed by
  \<open>rotate(-theta)\<close> gives exactly the original hue reduced modulo 360 into [0,360).
\<close>

theorem rotate_hue_wrap:
  "0 \<le> hue (rotate c theta) \<and> hue (rotate c theta) < 360
   \<and> hue (rotate (rotate c theta) (- theta)) = py_mod (hue c) 360"
proof -
  have "py_mod (hue c + theta) 360 + - theta
        = hue c - 360 * of_int \<lfloor>(hue c + theta) / 360\<rfloor>"
    by (simp add: py_mod_def)
  then have "py_mod (py_mod (hue c + theta) 360 + - theta) 360 = py_mod (hue c) 360"
    using py_mod_shift [of 360 "hue c" "\<lfloor>(hue c + theta) / 360\<rfloor>"] by simp
  then show ?thesis
    using py_mod_range [of 360 "hue c + theta"] by (simp add: hue_rotate)
qed

lemma lighten_fields:
  "lighten c add mult =
    Color_init (hue c) (saturation c) (min (max (mult * (lightness c + add)) 0) 100) (c_ryb c)"
  by (simp add: lighten_def hsl_def hue_def saturation_def lightness_def Let_def
      split: prod.splits)

text \<open>
  C7: \<open>lighten(add, mult)\<close> returns a colour whose lightness is exactly
  \<open>min(max(mult * (l + add), 0), 100)\<close>, hence in [0,100]; from lightness 50,
  \<open>add = 1000\<close> gives exactly 100 and \<open>add = -1000\<close> exactly 0 (with the default
  \<open>mult = 1\<close>); hue, saturation and the \<open>ryb\<close> flag are those of the original.
\<close>

theorem lighten_clamps:
  "lightness (lighten c add mult) = min (max (mult * (lightness c + add)) 0) 100
   \<and> 0 \<le> lightness (lighten c add mult) \<and> lightness (lighten c add mult) \<le> 100
   \<and> hue (lighten c add mult) = hue c
   \<and> saturation (lighten c add mult) = saturation c
   \<and> c_ryb (lighten c add mult) = c_ryb c
   \<and> lightness (lighten (Color_init h s 50 r) 1000 1) = 100
   \<and> lightness (lighten (Color_init h s 50 r) (- 1000) 1) = 0"
  by (simp add: lighten_fields Color_init_simps)

text \<open>
  C8: every harmony returns its documented sequence, in order: \<open>complement\<close> one colour
  rotated by 180; \<open>triad\<close> two, by 120 then -120; \<open>analagous\<close> two, by 30 then -30;
  \<open>compound\<close> two, by 150 then -150; \<open>square\<close> three, by 90, 180, 270;
  \<open>rectangle\<close> three, by 150, 180, 330, all hues modulo 360; and \<open>shades\<close> four,
  \<open>lighten(mult=0.5)\<close>, \<open>lighten(add=-20)\<close>, \<open>lighten(add=20)\<close>,
  \<open>lighten(mult=1.5)\<close>.
\<close>

theorem harmonies_ordered:
  "complement c = [rotate c 180]
   \<and> triad c = [rotate c 120, rotate c (- 120)]
   \<and> analagous c = [rotate c 30, rotate c (- 30)]
   \<and> compound c = [rotate c 150, rotate c (- 150)]
   \<and> square c = [rotate c 90, rotate c 180, rotate c 270]
   \<and> rectangle c = [rotate c 150, rotate c 180, rotate c 330]
   \<and> shades c = [lighten c 0 (1 / 2), lighten c (- 20) 1, lighten c 20 1, lighten c 0 (3 / 2)]
   \<and> map hue (complement c) = [py_mod (hue c + 180) 360]
   \<and> map hue (triad c) = [py_mod (hue c + 120) 360, py_mod (hue c - 120) 360]
   \<and> map hue (analagous c) = [py_mod (hue c + 30) 360, py_mod (hue c - 30) 360]
   \<and> map hue (compound c) = [py_mod (hue c + 150) 360, py_mod (hue c - 150) 360]
   \<and> map hue (square c)
       = [py_mod (hue c + 90) 360, py_mod (hue c + 180) 360, py_mod (hue c + 270) 360]
   \<and> map hue (rectangle c)
       = [py_mod (hue c + 150) 360, py_mod (hue c + 180) 360, py_mod (hue c + 330) 360]
   \<and> map lightness (shades c)
       = [min (max (lightness c / 2) 0) 100, min (max (lightness c - 20) 0) 100,
          min (max (lightness c + 20) 0) 100, min (max (3 / 2 * lightness c) 0) 100]
   \<and> map hue (square (Color_init 0 100 50 False)) = [90, 180, 270]
   \<and> map lightness (shades (Color_init 0 100 50 False)) = [25, 30, 70, 75]"
  by (simp add: complement_def triad_def analagous_def compound_def square_def
      rectangle_def shades_def hue_rotate lighten_fields Color_init_simps py_mod_def)

text \<open>
  C9: \<open>from_name\<close> fails with \<open>NameNotFound\<close> for every name that has no entry in the
  name table, and for a name that has one it returns the colour that \<open>from_rgb\<close> builds
  from the entry's RGB triple.
\<close>

theorem from_name_lookup:
  "(names name = None \<longrightarrow> from_name names name = Inl NameNotFound)
   \<and> (names name = Some (r, g, b) \<longrightarrow> from_name names name = from_rgb r g b False)"
  by (simp add: from_name_def tColor_parse_def)

theorem from_name_lookup_witness:
  "from_name [''red'' \<mapsto> (255, 0, 0)] ''not-a-color'' = Inl NameNotFound
   \<and> from_name [''red'' \<mapsto> (255, 0, 0)] ''red'' = Inr (Color_init 0 100 50 False)"
  using from_name_lookup [of "[''red'' \<mapsto> (255, 0, 0)]" "''not-a-color''"]
    from_name_lookup [of "[''red'' \<mapsto> (255, 0, 0)]" "''red''" 255 0 0]
  by (simp add: from_rgb_def rgb_to_hsl_def rgb_to_hls_def py_int_def py_mod_def Let_def)

section \<open>Properties of the HSL conversions\<close>

lemma v_hue_trapezoid: "v_hue m1 m2 x = m1 + (m2 - m1) * trapezoid x"
  by (simp add: v_hue_def trapezoid_def Let_def ac_simps)

lemma hls_to_rgb_channel:
  "hls_to_rgb h l s = (channel h l s (1 / 3), channel h l s 0, channel h l s (- (1 / 3)))"
proof (cases "s = 0")
  case True
  then show ?thesis by (simp add: hls_to_rgb_def channel_def)
next
  case s: False
  show ?thesis
  proof (cases "l \<le> 1 / 2")
    case True
    then have t: "tent l = l" by (simp add: tent_def)
    show ?thesis
      unfolding hls_to_rgb_def channel_def v_hue_trapezoid Let_def t
      using s True by (simp add: algebra_simps)
  next
    case False
    then have t: "tent l = 1 - l" by (simp add: tent_def)
    show ?thesis
      unfolding hls_to_rgb_def channel_def v_hue_trapezoid Let_def t
      using s False by (simp add: algebra_simps)
  qed
qed

lemma py_mod_1: "py_mod x 1 = x - of_int \<lfloor>x\<rfloor>"
  by (simp add: py_mod_def)

lemma py_mod_1_range: "0 \<le> py_mod x 1" "py_mod x 1 < 1"
  unfolding py_mod_1 by linarith+

lemma trapezoid_range: "0 \<le> trapezoid x" "trapezoid x \<le> 1"
  using py_mod_1_range [of x] by (auto simp: trapezoid_def Let_def)

lemma trapezoid_periodic: "trapezoid (x + of_int k) = trapezoid x"
  by (simp add: trapezoid_def py_mod_1)

lemma trapezoid_on_unit:
  assumes "0 \<le> u" "u < 1"
  shows "trapezoid (u + of_int k) =
    (if u < 1 / 6 then 6 * u
     else if u < 1 / 2 then 1
     else if u < 2 / 3 then 6 * (2 / 3 - u)
     else 0)"
proof -
  have "\<lfloor>u\<rfloor> = 0" using assms by (simp add: floor_eq_iff)
  then have "py_mod u 1 = u" by (simp add: py_mod_1)
  then show ?thesis unfolding trapezoid_periodic by (simp add: trapezoid_def)
qed

lemma trapezoid_lipschitz_near:
  assumes "x - y \<le> e" "y - x \<le> e" "e \<le> 1 / 6"
  shows "trapezoid x - trapezoid y \<le> 6 * e"
proof -
  define u where "u = x - of_int \<lfloor>x\<rfloor>"
  define v where "v = y - of_int \<lfloor>y\<rfloor>"
  define d where "d = \<lfloor>x\<rfloor> - \<lfloor>y\<rfloor>"
  have u: "0 \<le> u" "u < 1" and v: "0 \<le> v" "v < 1" unfolding u_def v_def by linarith+
  have xy: "x - y = u - v + of_int d" by (simp add: u_def v_def d_def)
  have "(of_int d :: real) < 2" "- 2 < (of_int d :: real)" using assms u v xy by linarith+
  then have "d < 2" "- 2 < d" by linarith+
  then have d: "d = - 1 \<or> d = 0 \<or> d = 1" by linarith
  have tx: "trapezoid x = (if u < 1 / 6 then 6 * u
     else if u < 1 / 2 then 1
     else if u < 2 / 3 then 6 * (2 / 3 - u)
     else 0)"
    using trapezoid_on_unit [OF u, of "\<lfloor>x\<rfloor>"] by (simp add: u_def)
  have ty: "trapezoid y = (if v < 1 / 6 then 6 * v
     else if v < 1 / 2 then 1
     else if v < 2 / 3 then 6 * (2 / 3 - v)
     else 0)"
    using trapezoid_on_unit [OF v, of "\<lfloor>y\<rfloor>"] by (simp add: v_def)
  from d show ?thesis
  proof (elim disjE)
    assume "d = - 1"
    then have "x - y = u - v - 1" using xy by simp
    then show ?thesis using assms u v unfolding tx ty by (auto split: if_splits)
  next
    assume "d = 0"
    then have "x - y = u - v" using xy by simp
    then show ?thesis using assms u v unfolding tx ty by (auto split: if_splits)
  next
    assume "d = 1"
    then have "x - y = u - v + 1" using xy by simp
    then show ?thesis using assms u v unfolding tx ty by (auto split: if_splits)
  qed
qed

lemma trapezoid_lipschitz:
  assumes "x - y \<le> e" "y - x \<le> e"
  shows "trapezoid x - trapezoid y \<le> 6 * e"
proof (cases "e \<le> 1 / 6")
  case True
  with assms show ?thesis by (rule trapezoid_lipschitz_near)
next
  case False
  then have "1 < 6 * e" by simp
  then show ?thesis using trapezoid_range(2) [of x] trapezoid_range(1) [of y] by linarith
qed

lemma trapezoid_sextant:
  assumes "- 1 \<le> t" "t \<le> 1"
  shows "trapezoid (t / 6 + 1 / 3) = 1"
    and "trapezoid (t / 6) = max t 0"
    and "trapezoid (t / 6 - 1 / 3) = max (- t) 0"
proof -
  have a: "0 \<le> t / 6 + 1 / 3" "t / 6 + 1 / 3 < 1" using assms by simp_all
  show "trapezoid (t / 6 + 1 / 3) = 1"
    using trapezoid_on_unit [OF a, of 0] assms by (simp split: if_splits)
  have c: "0 \<le> t / 6 + 2 / 3" "t / 6 + 2 / 3 < 1" using assms by simp_all
  have "t / 6 - 1 / 3 = (t / 6 + 2 / 3) + of_int (- 1)" by simp
  then show "trapezoid (t / 6 - 1 / 3) = max (- t) 0"
    using trapezoid_on_unit [OF c, of "- 1"] assms by (simp split: if_splits)
  show "trapezoid (t / 6) = max t 0"
  proof (cases "0 \<le> t")
    case True
    then have b: "0 \<le> t / 6" "t / 6 < 1" using assms by simp_all
    show ?thesis using trapezoid_on_unit [OF b, of 0] assms True by (simp split: if_splits)
  next
    case False
    then have b: "0 \<le> t / 6 + 1" "t / 6 + 1 < 1" using assms by simp_all
    have "t / 6 = (t / 6 + 1) + of_int (- 1)" by simp
    then show ?thesis using trapezoid_on_unit [OF b, of "- 1"] assms False
      by (simp split: if_splits)
  qed
qed

lemma sextant_channels:
  assumes C: "0 < C" and t: "C * t = p - q" and r: "- 1 \<le> t" "t \<le> 1"
  shows "C * trapezoid (t / 6 + 1 / 3) = C"
    and "C * trapezoid (t / 6) = max (p - q) 0"
    and "C * trapezoid (t / 6 - 1 / 3) = max (q - p) 0"
proof -
  show "C * trapezoid (t / 6 + 1 / 3) = C" using trapezoid_sextant(1) [OF r] by simp
  have "C * max t 0 = max (C * t) 0" using C by (simp add: max_def mult_le_0_iff)
  then show "C * trapezoid (t / 6) = max (p - q) 0"
    using trapezoid_sextant(2) [OF r] t by simp
  have "C * max (- t) 0 = max (- (C * t)) 0" using C by (simp add: max_def zero_le_mult_iff)
  then show "C * trapezoid (t / 6 - 1 / 3) = max (q - p) 0"
    using trapezoid_sextant(3) [OF r] t by simp
qed

lemma trapezoid_shift:
  "trapezoid (x + 1) = trapezoid x" "trapezoid (x - 1) = trapezoid x"
  using trapezoid_periodic [of x 1] trapezoid_periodic [of x "- 1"] by simp_all

lemma trapezoid_py_mod: "trapezoid (py_mod x 1 + a) = trapezoid (x + a)"
proof -
  have "py_mod x 1 + a = (x + a) + of_int (- \<lfloor>x\<rfloor>)" by (simp add: py_mod_1)
  then show ?thesis by (simp only: trapezoid_periodic)
qed

lemma rgb_to_hls_inverse:
  assumes r: "0 \<le> r" "r \<le> 1" and g: "0 \<le> g" "g \<le> 1" and b: "0 \<le> b" "b \<le> 1"
  shows "\<exists>h l s. rgb_to_hls r g b = Inr (h, l, s)
    \<and> 0 \<le> h \<and> h < 1 \<and> 0 \<le> l \<and> l \<le> 1 \<and> 0 \<le> s \<and> s \<le> 1
    \<and> r = channel h l s (1 / 3) \<and> g = channel h l s 0 \<and> b = channel h l s (- (1 / 3))"
proof -
  define M where "M = max r (max g b)"
  define m where "m = min r (min g b)"
  define C where "C = M - m"
  define L where "L = (M + m) / 2"
  have M: "r \<le> M" "g \<le> M" "b \<le> M" "M \<le> 1" using r g b by (simp_all add: M_def)
  have m: "m \<le> r" "m \<le> g" "m \<le> b" "0 \<le> m" using r g b by (simp_all add: m_def)
  have L: "0 \<le> L" "L \<le> 1" using M m by (simp_all add: L_def)
  show ?thesis
  proof (cases "m = M")
    case True
    then have eq: "r = L" "g = L" "b = L" using M m by (simp_all add: L_def)
    have "rgb_to_hls r g b = Inr (0, L, 0)"
      using True by (simp add: rgb_to_hls_def Let_def M_def m_def L_def)
    then show ?thesis using L eq by (simp add: channel_def)
  next
    case False
    then have C: "0 < C" using M m by (simp add: C_def)
    define S where "S = (if L \<le> 1 / 2 then C / (M + m) else C / (2 - M - m))"
    define h0 where "h0 = (if r = M then (M - b) / C - (M - g) / C
       else if g = M then 2 + (M - r) / C - (M - b) / C
       else 4 + (M - g) / C - (M - r) / C)"
    have d1: "0 < M + m" using C m by (simp add: C_def)
    have d2: "0 < 2 - M - m" using C M by (simp add: C_def)
    have hls: "rgb_to_hls r g b = Inr (py_mod (h0 / 6) 1, L, S)"
      using False d1 d2
      by (simp add: rgb_to_hls_def Let_def M_def [symmetric] m_def [symmetric]
          L_def S_def h0_def C_def)
    have S: "0 \<le> S" "S \<le> 1"
      using C d1 d2 m M by (simp_all add: S_def C_def)
    have St: "S * tent L = C / 2"
    proof (cases "L \<le> 1 / 2")
      case True
      then have "L \<le> 1 - L" by linarith
      then have "tent L = L" unfolding tent_def by (rule min_absorb1)
      then have tl: "tent L = (M + m) / 2" by (simp add: L_def)
      have Seq: "S = C / (M + m)" using True by (simp add: S_def)
      show ?thesis unfolding Seq tl using d1 by simp
    next
      case False
      then have "1 - L \<le> L" by linarith
      then have "tent L = 1 - L" unfolding tent_def by (rule min_absorb2)
      then have tl: "tent L = (2 - M - m) / 2" by (simp add: L_def field_simps)
      have Seq: "S = C / (2 - M - m)" using False by (simp add: S_def)
      show ?thesis unfolding Seq tl using d2 by simp
    qed
    have ch: "channel (py_mod (h0 / 6) 1) L S a = m + C * trapezoid (h0 / 6 + a)" for a
      unfolding channel_def St trapezoid_py_mod by (simp add: L_def C_def field_simps)
    have vals: "r = m + C * trapezoid (h0 / 6 + 1 / 3)
      \<and> g = m + C * trapezoid (h0 / 6)
      \<and> b = m + C * trapezoid (h0 / 6 - 1 / 3)"
    proof (cases "r = M")
      case True
      define t where "t = (g - b) / C"
      have h0: "h0 = t" using True C by (simp add: h0_def t_def diff_divide_distrib)
      have Ct: "C * t = g - b" using C by (simp add: t_def)
      have "\<bar>g - b\<bar> \<le> C" using M m by (simp add: C_def abs_le_iff)
      then have tr: "- 1 \<le> t" "t \<le> 1" using C by (simp_all add: t_def abs_le_iff pos_le_divide_eq pos_divide_le_eq)
      note sc = sextant_channels [OF C Ct tr]
      have mm: "m = min g b" using True M by (simp add: m_def M_def)
      show ?thesis unfolding h0 sc using True mm by (simp add: C_def min_def max_def)
    next
      case rM: False
      show ?thesis
      proof (cases "g = M")
        case True
        define t where "t = (b - r) / C"
        have h0: "h0 / 6 = t / 6 + 1 / 3"
          using True rM C by (simp add: h0_def t_def diff_divide_distrib)
        have Ct: "C * t = b - r" using C by (simp add: t_def)
        have "\<bar>b - r\<bar> \<le> C" using M m by (simp add: C_def abs_le_iff)
        then have tr: "- 1 \<le> t" "t \<le> 1" using C by (simp_all add: t_def abs_le_iff pos_le_divide_eq pos_divide_le_eq)
        note sc = sextant_channels [OF C Ct tr]
        have mm: "m = min r b" using True M by (simp add: m_def M_def)
        have e1: "h0 / 6 + 1 / 3 = (t / 6 - 1 / 3) + 1" and e2: "h0 / 6 - 1 / 3 = t / 6"
          using h0 by linarith+
        show ?thesis unfolding e1 e2 trapezoid_shift unfolding h0 sc
          using True mm by (simp add: C_def min_def max_def)
      next
        case gM: False
        then have bM: "b = M" using rM by (simp add: M_def max_def split: if_splits)
        define t where "t = (r - g) / C"
        have h0: "h0 / 6 = t / 6 + 2 / 3"
          using gM rM C by (simp add: h0_def t_def diff_divide_distrib)
        have Ct: "C * t = r - g" using C by (simp add: t_def)
        have "\<bar>r - g\<bar> \<le> C" using M m by (simp add: C_def abs_le_iff)
        then have tr: "- 1 \<le> t" "t \<le> 1" using C by (simp_all add: t_def abs_le_iff pos_le_divide_eq pos_divide_le_eq)
        note sc = sextant_channels [OF C Ct tr]
        have mm: "m = min r g" using bM M by (simp add: m_def M_def)
        have e1: "h0 / 6 + 1 / 3 = t / 6 + 1" and e2: "h0 / 6 - 1 / 3 = t / 6 + 1 / 3"
          and e3: "h0 / 6 = (t / 6 - 1 / 3) + 1"
          using h0 by linarith+
        have "r = m + C * trapezoid (h0 / 6 + 1 / 3)"
          unfolding e1 trapezoid_shift sc using mm by (simp add: min_def max_def)
        moreover have "g = m + C * trapezoid (h0 / 6)"
          unfolding e3 trapezoid_shift sc using mm by (simp add: min_def max_def)
        moreover have "b = m + C * trapezoid (h0 / 6 - 1 / 3)"
          unfolding e2 sc using bM by (simp add: C_def)
        ultimately show ?thesis by blast
      qed
    qed
    have "r = channel (py_mod (h0 / 6) 1) L S (1 / 3)"
      "g = channel (py_mod (h0 / 6) 1) L S 0"
      "b = channel (py_mod (h0 / 6) 1) L S (- (1 / 3))"
      using vals unfolding ch by simp_all
    then show ?thesis using hls L S py_mod_1_range [of "h0 / 6"] by blast
  qed
qed

lemma tent_range:
  assumes "0 \<le> l" "l \<le> 1"
  shows "0 \<le> tent l" "tent l \<le> 1 / 2" "tent l \<le> l"
  using assms by (simp_all add: tent_def min_def)

lemma tent_lipschitz: "\<bar>tent l - tent l'\<bar> \<le> \<bar>l - l'\<bar>"
  by (simp add: tent_def min_def abs_if)

lemma abs_mult_bound:
  fixes x y :: real
  assumes "\<bar>x\<bar> \<le> a" "\<bar>y\<bar> \<le> b"
  shows "\<bar>x * y\<bar> \<le> a * b"
proof -
  have "0 \<le> a" using assms(1) by linarith
  then have "\<bar>x\<bar> * \<bar>y\<bar> \<le> a * b"
    using assms by (intro mult_mono) simp_all
  then show ?thesis by (simp add: abs_mult)
qed

lemma channel_range:
  assumes l: "0 \<le> l" "l \<le> 1" and s: "0 \<le> s" "s \<le> 1"
  shows "0 \<le> channel h l s a" "channel h l s a \<le> 1"
proof -
  define A where "A = s * tent l"
  define W where "W = 2 * trapezoid (h + a) - 1"
  have t: "0 \<le> tent l" "tent l \<le> l" "tent l \<le> 1 - l"
    using l by (simp_all add: tent_def)
  have A0: "0 \<le> A" using s t by (simp add: A_def)
  have "A \<le> 1 * tent l" unfolding A_def using s t by (intro mult_right_mono) simp_all
  then have A1: "A \<le> tent l" by simp
  have W: "\<bar>W\<bar> \<le> 1" using trapezoid_range [of "h + a"] unfolding W_def by linarith
  have "\<bar>A\<bar> \<le> A" using A0 by simp
  then have "\<bar>A * W\<bar> \<le> A * 1" using W by (rule abs_mult_bound)
  then have AW: "- A \<le> A * W" "A * W \<le> A" by linarith+
  have c: "channel h l s a = l + A * W" by (simp add: channel_def A_def W_def)
  show "0 \<le> channel h l s a" unfolding c using AW A1 t by linarith
  show "channel h l s a \<le> 1" unfolding c using AW A1 t by linarith
qed

lemma channel_close:
  assumes l: "0 \<le> l" "l \<le> 1" and l': "0 \<le> l'" "l' \<le> 1"
    and s: "0 \<le> s" "s \<le> 1" and s': "0 \<le> s'" "s' \<le> 1"
    and dl: "\<bar>l - l'\<bar> \<le> d" and ds: "\<bar>s - s'\<bar> \<le> d" and dh: "\<bar>h - h'\<bar> \<le> e"
  shows "\<bar>channel h l s a - channel h' l' s' a\<bar> \<le> 5 / 2 * d + 6 * e"
proof -
  define A where "A = s * tent l"
  define A' where "A' = s' * tent l'"
  define W where "W = 2 * trapezoid (h + a) - 1"
  define W' where "W' = 2 * trapezoid (h' + a) - 1"
  have d0: "0 \<le> d" using dl by linarith
  have as: "\<bar>s\<bar> \<le> 1" and as': "\<bar>s'\<bar> \<le> 1" using s s' by linarith+
  have at: "\<bar>tent l\<bar> \<le> 1 / 2" using tent_range [OF l] by linarith
  have "\<bar>s * tent l\<bar> \<le> 1 * (1 / 2)" using as at by (rule abs_mult_bound)
  then have A: "\<bar>A\<bar> \<le> 1 / 2" by (simp add: A_def)
  have W': "\<bar>W'\<bar> \<le> 1" using trapezoid_range [of "h' + a"] unfolding W'_def by linarith
  have hh: "(h + a) - (h' + a) \<le> e" "(h' + a) - (h + a) \<le> e" using dh by linarith+
  have "trapezoid (h + a) - trapezoid (h' + a) \<le> 6 * e"
    using hh by (rule trapezoid_lipschitz)
  moreover have "trapezoid (h' + a) - trapezoid (h + a) \<le> 6 * e"
    using hh(2) hh(1) by (rule trapezoid_lipschitz)
  ultimately have WW: "\<bar>W - W'\<bar> \<le> 12 * e" unfolding W_def W'_def by linarith
  have tl: "\<bar>tent l - tent l'\<bar> \<le> d" using tent_lipschitz [of l l'] dl by linarith
  have q1: "\<bar>(s - s') * tent l\<bar> \<le> d * (1 / 2)" using ds at by (rule abs_mult_bound)
  have q2: "\<bar>s' * (tent l - tent l')\<bar> \<le> 1 * d" using as' tl by (rule abs_mult_bound)
  have "A - A' = (s - s') * tent l + s' * (tent l - tent l')"
    by (simp add: A_def A'_def algebra_simps)
  then have AA: "\<bar>A - A'\<bar> \<le> 3 / 2 * d" using q1 q2 by linarith
  have p1: "\<bar>A * (W - W')\<bar> \<le> 1 / 2 * (12 * e)" using A WW by (rule abs_mult_bound)
  have p2: "\<bar>(A - A') * W'\<bar> \<le> 3 / 2 * d * 1" using AA W' by (rule abs_mult_bound)
  have "channel h l s a - channel h' l' s' a = (l - l') + A * (W - W') + (A - A') * W'"
    by (simp add: channel_def A_def A'_def W_def W'_def algebra_simps)
  then show ?thesis using dl p1 p2 by linarith
qed

lemma round_half_up:
  fixes x :: real
  assumes "0 \<le> x" "x \<le> 1" "0 < k"
  shows "py_int (x * of_int k + 1 / 2) = \<lfloor>x * of_int k + 1 / 2\<rfloor>"
    and "0 \<le> \<lfloor>x * of_int k + 1 / 2\<rfloor>" and "\<lfloor>x * of_int k + 1 / 2\<rfloor> \<le> k"
    and "0 \<le> of_int \<lfloor>x * of_int k + 1 / 2\<rfloor> / (of_int k :: real)"
    and "of_int \<lfloor>x * of_int k + 1 / 2\<rfloor> / (of_int k :: real) \<le> 1"
    and "\<bar>x - of_int \<lfloor>x * of_int k + 1 / 2\<rfloor> / of_int k\<bar> \<le> 1 / (2 * of_int k)"
proof -
  define n where "n = \<lfloor>x * of_int k + 1 / 2\<rfloor>"
  have k: "0 < (of_int k :: real)" using assms by simp
  have xk: "0 \<le> x * of_int k" using assms by simp
  have xk1: "x * of_int k \<le> of_int k" using assms k by (simp add: mult_left_le_one_le)
  have n1: "of_int n \<le> x * of_int k + 1 / 2" unfolding n_def by linarith
  have n2: "x * of_int k + 1 / 2 < of_int n + 1" unfolding n_def by linarith
  show "py_int (x * of_int k + 1 / 2) = \<lfloor>x * of_int k + 1 / 2\<rfloor>"
    using xk by (simp add: py_int_def)
  have "- 1 < (of_int n :: real)" using n2 xk by linarith
  then have n0: "0 \<le> n" by linarith
  have "(of_int n :: real) < of_int k + 1" using n1 xk1 by linarith
  then have nk: "n \<le> k" by linarith
  show "0 \<le> \<lfloor>x * of_int k + 1 / 2\<rfloor>" "\<lfloor>x * of_int k + 1 / 2\<rfloor> \<le> k"
    using n0 nk by (simp_all add: n_def)
  show "0 \<le> of_int \<lfloor>x * of_int k + 1 / 2\<rfloor> / (of_int k :: real)"
    using n0 k by (simp add: n_def)
  show "of_int \<lfloor>x * of_int k + 1 / 2\<rfloor> / (of_int k :: real) \<le> 1"
    using nk k by (simp add: n_def)
  have e: "x - of_int n / of_int k = (x * of_int k - of_int n) / of_int k"
    using k by (simp add: field_simps)
  have a: "\<bar>x * of_int k - of_int n\<bar> \<le> 1 / 2" using n1 n2 by linarith
  have k0: "0 \<le> (of_int k :: real)" using k by simp
  have "\<bar>(x * of_int k - of_int n) / of_int k\<bar> = \<bar>x * of_int k - of_int n\<bar> / of_int k"
    by (simp only: abs_divide abs_of_pos [OF k])
  also have "\<dots> \<le> (1 / 2) / of_int k" using a k0 by (rule divide_right_mono)
  also have "\<dots> = 1 / (2 * of_int k)" by simp
  finally have "\<bar>(x * of_int k - of_int n) / of_int k\<bar> \<le> 1 / (2 * of_int k)" .
  then have "\<bar>x - of_int n / of_int k\<bar> \<le> 1 / (2 * of_int k)" unfolding e .
  then show "\<bar>x - of_int \<lfloor>x * of_int k + 1 / 2\<rfloor> / of_int k\<bar> \<le> 1 / (2 * of_int k)"
    unfolding n_def .
qed

lemma round_close:
  assumes "\<bar>x * 255 - of_int r\<bar> \<le> 85 / 16" "0 \<le> x"
  shows "\<bar>py_int (x * 255 + 1 / 2) - r\<bar> \<le> 5"
proof -
  define n where "n = \<lfloor>x * 255 + 1 / 2\<rfloor>"
  have n1: "of_int n \<le> x * 255 + 1 / 2" unfolding n_def by linarith
  have n2: "x * 255 + 1 / 2 < of_int n + 1" unfolding n_def by linarith
  have "(of_int n :: real) < of_int r + 6" "of_int r - 6 < (of_int n :: real)"
    using assms(1) n1 n2 by linarith+
  then have "n < r + 6" "r - 6 < n" by linarith+
  then have "\<bar>n - r\<bar> \<le> 5" by linarith
  then show ?thesis using assms(2) by (simp add: py_int_def n_def)
qed

lemma rgb_to_hsl_quantised:
  assumes r: "0 \<le> r" "r \<le> 255" and g: "0 \<le> g" "g \<le> 255" and b: "0 \<le> b" "b \<le> 255"
  shows "\<exists>H L S. 0 \<le> H \<and> H \<le> 1 \<and> 0 \<le> L \<and> L \<le> 1 \<and> 0 \<le> S \<and> S \<le> 1
    \<and> rgb_to_hsl r g b = Inr (\<lfloor>H * 360 + 1 / 2\<rfloor>, \<lfloor>S * 100 + 1 / 2\<rfloor>, \<lfloor>L * 100 + 1 / 2\<rfloor>)
    \<and> of_int r / 255 = channel H L S (1 / 3)
    \<and> of_int g / 255 = channel H L S 0
    \<and> of_int b / 255 = channel H L S (- (1 / 3))"
proof -
  obtain H L S where hls: "rgb_to_hls (of_int r / 255) (of_int g / 255) (of_int b / 255) = Inr (H, L, S)"
    and H: "0 \<le> H" "H < 1" and L: "0 \<le> L" "L \<le> 1" and S: "0 \<le> S" "S \<le> 1"
    and ch: "of_int r / 255 = channel H L S (1 / 3)" "of_int g / 255 = channel H L S 0"
      "of_int b / 255 = channel H L S (- (1 / 3))"
    using rgb_to_hls_inverse [OF channel_unit [OF r] channel_unit [OF g] channel_unit [OF b]]
    by blast
  have "rgb_to_hsl r g b = Inr (\<lfloor>H * 360 + 1 / 2\<rfloor>, \<lfloor>S * 100 + 1 / 2\<rfloor>, \<lfloor>L * 100 + 1 / 2\<rfloor>)"
    using H L S by (simp add: rgb_to_hsl_def hls py_int_nonneg)
  then show ?thesis using H L S ch by (intro exI [of _ H] exI [of _ L] exI [of _ S]) simp
qed

text \<open>
  C4 as stated fails: the hue of (255,0,1) is 359.76 degrees, which rounds up to 360.
\<close>

theorem rgb_to_hsl_360_counterexample:
  "rgb_to_hsl 255 0 1 = Inr (360, 100, 50)"
  by (simp add: rgb_to_hsl_def rgb_to_hls_def py_int_def py_mod_def Let_def)

text \<open>
  C4, amended: for every integer RGB triple with each component in [0,255],
  \<open>rgb_to_hsl\<close> returns an HSL triple whose hue lies in [0,360], 360 included, and
  whose saturation and lightness lie in [0,100].
\<close>

theorem rgb_to_hsl_range:
  assumes r: "0 \<le> r" "r \<le> 255" and g: "0 \<le> g" "g \<le> 255" and b: "0 \<le> b" "b \<le> 255"
  shows "\<exists>h s l. rgb_to_hsl r g b = Inr (h, s, l)
    \<and> 0 \<le> h \<and> h \<le> 360 \<and> 0 \<le> s \<and> s \<le> 100 \<and> 0 \<le> l \<and> l \<le> 100"
proof -
  obtain H L S :: real where H: "0 \<le> H" "H \<le> 1" and L: "0 \<le> L" "L \<le> 1" and S: "0 \<le> S" "S \<le> 1"
    and q: "rgb_to_hsl r g b = Inr (\<lfloor>H * 360 + 1 / 2\<rfloor>, \<lfloor>S * 100 + 1 / 2\<rfloor>, \<lfloor>L * 100 + 1 / 2\<rfloor>)"
    using rgb_to_hsl_quantised [OF assms] by blast
  have "0 \<le> \<lfloor>H * 360 + 1 / 2\<rfloor>" "\<lfloor>H * 360 + 1 / 2\<rfloor> \<le> 360"
    using round_half_up(2,3) [OF H, of 360] by simp_all
  moreover have "0 \<le> \<lfloor>S * 100 + 1 / 2\<rfloor>" "\<lfloor>S * 100 + 1 / 2\<rfloor> \<le> 100"
    using round_half_up(2,3) [OF S, of 100] by simp_all
  moreover have "0 \<le> \<lfloor>L * 100 + 1 / 2\<rfloor>" "\<lfloor>L * 100 + 1 / 2\<rfloor> \<le> 100"
    using round_half_up(2,3) [OF L, of 100] by simp_all
  ultimately show ?thesis using q by blast
qed

theorem rgb_to_hsl_range_witness:
  "rgb_to_hsl 12 200 77 = Inr (141, 89, 42)"
  using rgb_to_hsl_range [of 12 200 77]
  by (simp add: rgb_to_hsl_def rgb_to_hls_def py_int_def py_mod_def Let_def)

lemma channel_round_close:
  assumes H: "0 \<le> H" "H \<le> 1" and L: "0 \<le> L" "L \<le> 1" and S: "0 \<le> S" "S \<le> 1"
    and ch: "of_int r / 255 = channel H L S a"
  shows "\<bar>py_int (channel (of_int \<lfloor>H * 360 + 1 / 2\<rfloor> / 360)
            (of_int \<lfloor>L * 100 + 1 / 2\<rfloor> / 100) (of_int \<lfloor>S * 100 + 1 / 2\<rfloor> / 100) a * 255
          + 1 / 2) - r\<bar> \<le> 5"
proof -
  define h' :: real where "h' = of_int \<lfloor>H * 360 + 1 / 2\<rfloor> / 360"
  define l' :: real where "l' = of_int \<lfloor>L * 100 + 1 / 2\<rfloor> / 100"
  define s' :: real where "s' = of_int \<lfloor>S * 100 + 1 / 2\<rfloor> / 100"
  have dh: "\<bar>H - h'\<bar> \<le> 1 / 720"
    using round_half_up(6) [OF H, of 360] by (simp add: h'_def)
  have l': "0 \<le> l'" "l' \<le> 1" and dl: "\<bar>L - l'\<bar> \<le> 1 / 200"
    using round_half_up(4,5,6) [OF L, of 100] by (simp_all add: l'_def)
  have s': "0 \<le> s'" "s' \<le> 1" and ds: "\<bar>S - s'\<bar> \<le> 1 / 200"
    using round_half_up(4,5,6) [OF S, of 100] by (simp_all add: s'_def)
  have "\<bar>channel H L S a - channel h' l' s' a\<bar> \<le> 5 / 2 * (1 / 200) + 6 * (1 / 720)"
    using L l' S s' dl ds dh by (rule channel_close)
  then have "\<bar>of_int r / 255 - channel h' l' s' a\<bar> \<le> 1 / 48" using ch by simp
  then have "\<bar>channel h' l' s' a * 255 - of_int r\<bar> \<le> 85 / 16" by linarith
  then have "\<bar>py_int (channel h' l' s' a * 255 + 1 / 2) - r\<bar> \<le> 5"
    using channel_range(1) [OF l' s'] by (rule round_close)
  then show ?thesis by (simp only: h'_def l'_def s'_def)
qed

text \<open>
  C1 as stated fails: (3,0,0) becomes HSL (0,100,1), which converts back to (5,0,0), two
  away from the original red.
\<close>

theorem round_trip_counterexample:
  "rgb_to_hsl 3 0 0 = Inr (0, 100, 1) \<and> hsl_to_rgb 0 100 1 = (5, 0, 0)
   \<and> \<not> \<bar>5 - 3\<bar> \<le> (1::int)"
  by (simp add: rgb_to_hsl_def rgb_to_hls_def hsl_to_rgb_def hls_to_rgb_def
      v_hue_def py_int_def py_mod_def Let_def)

text \<open>
  C1, amended: for every integer RGB triple with each component in [0,255],
  \<open>rgb_to_hsl\<close> returns an HSL triple, and \<open>hsl_to_rgb\<close> of it is a triple whose
  components differ from the original ones by at most 5. The HSL triple is rounded to whole
  degrees and percents, which moves lightness and saturation by up to 1/200 and the hue by
  up to 1/720 of a turn; a channel then moves by at most 1/48, that is 5.3125 of 255.
\<close>

theorem round_trip_within_5:
  assumes r: "0 \<le> r" "r \<le> 255" and g: "0 \<le> g" "g \<le> 255" and b: "0 \<le> b" "b \<le> 255"
  shows "\<exists>h s l r' g' b'. rgb_to_hsl r g b = Inr (h, s, l)
    \<and> hsl_to_rgb (of_int h) (of_int s) (of_int l) = (r', g', b')
    \<and> \<bar>r' - r\<bar> \<le> 5 \<and> \<bar>g' - g\<bar> \<le> 5 \<and> \<bar>b' - b\<bar> \<le> 5"
proof -
  obtain H L S :: real where H: "0 \<le> H" "H \<le> 1" and L: "0 \<le> L" "L \<le> 1" and S: "0 \<le> S" "S \<le> 1"
    and q: "rgb_to_hsl r g b = Inr (\<lfloor>H * 360 + 1 / 2\<rfloor>, \<lfloor>S * 100 + 1 / 2\<rfloor>, \<lfloor>L * 100 + 1 / 2\<rfloor>)"
    and ch: "of_int r / 255 = channel H L S (1 / 3)" "of_int g / 255 = channel H L S 0"
      "of_int b / 255 = channel H L S (- (1 / 3))"
    using rgb_to_hsl_quantised [OF assms] by blast
  define h' :: real where "h' = of_int \<lfloor>H * 360 + 1 / 2\<rfloor> / 360"
  define l' :: real where "l' = of_int \<lfloor>L * 100 + 1 / 2\<rfloor> / 100"
  define s' :: real where "s' = of_int \<lfloor>S * 100 + 1 / 2\<rfloor> / 100"
  have rt: "hsl_to_rgb (of_int \<lfloor>H * 360 + 1 / 2\<rfloor>) (of_int \<lfloor>S * 100 + 1 / 2\<rfloor>)
      (of_int \<lfloor>L * 100 + 1 / 2\<rfloor>) =
    (py_int (channel h' l' s' (1 / 3) * 255 + 1 / 2),
     py_int (channel h' l' s' 0 * 255 + 1 / 2),
     py_int (channel h' l' s' (- (1 / 3)) * 255 + 1 / 2))"
    by (simp add: hsl_to_rgb_def hls_to_rgb_channel h'_def l'_def s'_def)
  note c = channel_round_close [OF H L S, folded h'_def l'_def s'_def]
  show ?thesis using q rt c [OF ch(1)] c [OF ch(2)] c [OF ch(3)] by blast
qed

theorem round_trip_within_5_witness:
  "rgb_to_hsl 2 228 230 = Inr (181, 98, 45) \<and> hsl_to_rgb 181 98 45 = (2, 223, 227)"
  using round_trip_within_5 [of 2 228 230]
  by (simp add: rgb_to_hsl_def rgb_to_hls_def hsl_to_rgb_def hls_to_rgb_def
      v_hue_def py_int_def py_mod_def Let_def)

end
